theory Spec2Isabelle
  imports Complex_Main "HOL-Library.Log_Nat"
begin

section \<open>JavaScript numbers\<close>

text \<open>
  The class \<open>Duration\<close> of \<^verbatim>\<open>src/src/duration.ts\<close> stores a JavaScript \<open>number\<close>, an
  IEEE 754 binary64 value: a finite double, one of the two infinities, or NaN. A finite
  double is kept as the real number it denotes; the sign of zero is not modelled.
\<close>

datatype number = Fin real | PosInf | NegInf | NaN

subsection \<open>Rounding\<close>

text \<open>
  An arithmetic operation on finite doubles computes the exact real result and rounds it.
  The rounding is a parameter of the operations below, of type \<open>rounding\<close>. The code runs
  with \<open>binary64\<close>: round to nearest, ties to even, with 53 significant bits, gradual
  underflow below \<open>2 powi (- 1022)\<close> and overflow to an infinity. The rounding \<open>exact\<close>
  keeps the real result; it is the arithmetic of a statement made "in exact arithmetic".
\<close>

type_synonym rounding = "real \<Rightarrow> number"


text \<open>
  The binary exponent of a real: \<open>2 powi (exponent x) \<le> \<bar>x\<bar> < 2 powi (exponent x + 1)\<close>
  for \<open>x \<noteq> 0\<close>, computed from the bit length of an integer next to \<open>\<bar>x\<bar>\<close> or to its
  inverse.
\<close>

definition exponent :: "real \<Rightarrow> int" where
  "exponent x =
     (if 1 \<le> \<bar>x\<bar> then bitlen \<lfloor>\<bar>x\<bar>\<rfloor> - 1 else - bitlen (\<lceil>1 / \<bar>x\<bar>\<rceil> - 1))"

text \<open>Below \<open>2 powi (- 1022)\<close> the doubles are subnormal and share the smallest exponent.\<close>

definition binade :: "real \<Rightarrow> int" where
  "binade x = max (exponent x) (- 1022)"

text \<open>The distance of neighbouring doubles around \<open>x\<close>: 52 fraction bits.\<close>

definition ulp :: "real \<Rightarrow> real" where
  "ulp x = 2 powi (binade x - 52)"

definition round_half_even :: "real \<Rightarrow> int" where
  "round_half_even q =
     (let f = \<lfloor>q\<rfloor>; d = q - of_int f
      in if d < 1 / 2 then f else if 1 / 2 < d then f + 1 else if even f then f else f + 1)"

text \<open>The nearest multiple of \<open>ulp x\<close>, before the test for overflow.\<close>

definition nearest :: "real \<Rightarrow> real" where
  "nearest x = of_int (round_half_even (x / ulp x)) * ulp x"

definition binary64 :: rounding where
  "binary64 x =
     (let y = nearest x
      in if 2 ^ 1024 \<le> y then PosInf else if y \<le> - (2 ^ 1024) then NegInf else Fin y)"

text \<open>A real is a double when rounding leaves it as it is.\<close>

definition is_double :: "real \<Rightarrow> bool" where
  "is_double x = (binary64 x = Fin x)"

subsection \<open>Operations\<close>

text \<open>
  The operations the class uses (\<open>+\<close>, \<open>-\<close>, \<open>*\<close>, \<open>/\<close>, \<open><\<close>, \<open>Math.floor\<close>), with the
  IEEE 754 rules for the special values. Negation, comparison and \<open>Math.floor\<close> are exact
  on doubles.
\<close>

fun num_neg :: "number \<Rightarrow> number" where
  "num_neg (Fin a) = Fin (- a)"
| "num_neg PosInf = NegInf"
| "num_neg NegInf = PosInf"
| "num_neg NaN = NaN"

fun num_add :: "rounding \<Rightarrow> number \<Rightarrow> number \<Rightarrow> number" where
  "num_add rd NaN y = NaN"
| "num_add rd x NaN = NaN"
| "num_add rd (Fin a) (Fin b) = rd (a + b)"
| "num_add rd PosInf NegInf = NaN"
| "num_add rd NegInf PosInf = NaN"
| "num_add rd PosInf y = PosInf"
| "num_add rd NegInf y = NegInf"
| "num_add rd (Fin a) y = y"

definition num_sub :: "rounding \<Rightarrow> number \<Rightarrow> number \<Rightarrow> number" where
  "num_sub rd x y = num_add rd x (num_neg y)"

text \<open>The sign of a number that is not NaN, and the infinity of a given sign.\<close>

fun sign_of :: "number \<Rightarrow> real" where
  "sign_of (Fin a) = sgn a"
| "sign_of PosInf = 1"
| "sign_of NegInf = - 1"
| "sign_of NaN = 0"

definition signed_inf :: "real \<Rightarrow> number" where
  "signed_inf s = (if s = 0 then NaN else if 0 < s then PosInf else NegInf)"

fun num_mul :: "rounding \<Rightarrow> number \<Rightarrow> number \<Rightarrow> number" where
  "num_mul rd NaN y = NaN"
| "num_mul rd x NaN = NaN"
| "num_mul rd (Fin a) (Fin b) = rd (a * b)"
| "num_mul rd x y = signed_inf (sign_of x * sign_of y)"

fun num_div :: "rounding \<Rightarrow> number \<Rightarrow> number \<Rightarrow> number" where
  "num_div rd NaN y = NaN"
| "num_div rd x NaN = NaN"
| "num_div rd (Fin a) (Fin b) = (if b = 0 then signed_inf (sgn a) else rd (a / b))"
| "num_div rd (Fin a) y = Fin 0"
| "num_div rd x (Fin b) = signed_inf (sign_of x * (if b < 0 then - 1 else 1))"
| "num_div rd x y = NaN"

fun num_lt :: "number \<Rightarrow> number \<Rightarrow> bool" where
  "num_lt NaN y = False"
| "num_lt x NaN = False"
| "num_lt (Fin a) (Fin b) = (a < b)"
| "num_lt x NegInf = False"
| "num_lt PosInf y = False"
| "num_lt NegInf y = True"
| "num_lt (Fin a) PosInf = True"

fun Math_floor :: "number \<Rightarrow> number" where
  "Math_floor (Fin a) = Fin (of_int \<lfloor>a\<rfloor>)"
| "Math_floor x = x"

text \<open>\<open>Number.MAX_VALUE\<close>, the largest finite double: \<open>(2^53 - 1) * 2^971\<close>.\<close>

definition MAX_VALUE :: number where
  "MAX_VALUE = Fin (2 ^ 1024 - 2 ^ 971)"

subsection \<open>The random source\<close>

text \<open>
  \<open>Math.random()\<close> reads a process-wide generator. The model passes it as a state: the
  sequence of values it will return and how many of them were taken.
\<close>

record random_source =
  draws :: "nat \<Rightarrow> real"
  used :: nat

definition Math_random :: "random_source \<Rightarrow> number \<times> random_source" where
  "Math_random s = (Fin (draws s (used s)), s\<lparr>used := used s + 1\<rparr>)"

text \<open>A source that returns the same value at every call.\<close>

definition always :: "real \<Rightarrow> nat \<Rightarrow> real" where
  "always r n = r"

section \<open>Errors and the checks of the library\<close>

text \<open>The two kinds of error of the spec.\<close>

datatype error = InvalidArgument | InvalidOperation

definition bind_result :: "error + 'a \<Rightarrow> ('a \<Rightarrow> error + 'b) \<Rightarrow> error + 'b" where
  "bind_result r f = (case r of Inl e \<Rightarrow> Inl e | Inr v \<Rightarrow> f v)"

text \<open>
  Modelled from the spec: \<open>Check.verify\<close> of the package \<^verbatim>\<open>@awkewainze/checkverify\<close>,
  which \<^verbatim>\<open>duration.ts\<close> imports and whose source is not part of the repository. The
  spec gives its failure where the class calls it with a condition that can be false: a
  conversion of a forever duration fails with \<open>InvalidOperation\<close>.
\<close>

definition Check_verify :: "bool \<Rightarrow> error + unit" where
  "Check_verify statement = (if statement then Inr () else Inl InvalidOperation)"

text \<open>
  Modelled from the spec: \<open>Check.verifyNotNegative\<close> of the same package. A factory
  fails with \<open>InvalidArgument\<close> if the input is negative.
\<close>

definition Check_verifyNotNegative :: "number \<Rightarrow> error + unit" where
  "Check_verifyNotNegative n = (if num_lt n (Fin 0) then Inl InvalidArgument else Inr ())"

text \<open>
  Modelled from the spec: \<open>Check.verifyPositive\<close> of the same package. \<open>multiply\<close> fails
  with \<open>InvalidArgument\<close> if the factor is not strictly positive.
\<close>

definition Check_verifyPositive :: "number \<Rightarrow> error + unit" where
  "Check_verifyPositive n = (if num_lt (Fin 0) n then Inr () else Inl InvalidArgument)"

text \<open>
  Modelled from the spec: \<open>Check.verifyNotNullOrUndefined\<close> of the same package. \<open>add\<close>
  and \<open>between\<close> fail with \<open>InvalidArgument\<close> if an operand is null or absent.
\<close>

definition Check_verifyNotNullOrUndefined :: "'a option \<Rightarrow> error + 'a" where
  "Check_verifyNotNullOrUndefined v = (case v of None \<Rightarrow> Inl InvalidArgument | Some x \<Rightarrow> Inr x)"

section \<open>The class Duration\<close>

record Duration =
  milliseconds :: number
  forever :: bool

text \<open>The private constructor: a forever duration stores positive infinity.\<close>

definition new_Duration :: "number \<Rightarrow> bool \<Rightarrow> Duration" where
  "new_Duration ms fv = \<lparr>milliseconds = (if fv then PosInf else ms), forever = fv\<rparr>"

subsection \<open>Conversions\<close>

definition toMilliseconds :: "Duration \<Rightarrow> error + number" where
  "toMilliseconds this =
     bind_result (Check_verify (\<not> forever this)) (\<lambda>_. Inr (milliseconds this))"

definition toSeconds :: "rounding \<Rightarrow> Duration \<Rightarrow> error + number" where
  "toSeconds rd this =
     bind_result (Check_verify (\<not> forever this))
       (\<lambda>_. Inr (num_div rd (milliseconds this) (Fin 1000)))"

definition toMinutes :: "rounding \<Rightarrow> Duration \<Rightarrow> error + number" where
  "toMinutes rd this =
     bind_result (Check_verify (\<not> forever this))
       (\<lambda>_. bind_result (toSeconds rd this) (\<lambda>s. Inr (num_div rd s (Fin 60))))"

definition toHours :: "rounding \<Rightarrow> Duration \<Rightarrow> error + number" where
  "toHours rd this =
     bind_result (Check_verify (\<not> forever this))
       (\<lambda>_. bind_result (toMinutes rd this) (\<lambda>m. Inr (num_div rd m (Fin 60))))"

definition toDays :: "rounding \<Rightarrow> Duration \<Rightarrow> error + number" where
  "toDays rd this =
     bind_result (Check_verify (\<not> forever this))
       (\<lambda>_. bind_result (toHours rd this) (\<lambda>h. Inr (num_div rd h (Fin 24))))"

definition isForever :: "Duration \<Rightarrow> bool" where
  "isForever this = forever this"

subsection \<open>Arithmetic\<close>

text \<open>
  An operand of type \<open>Duration\<close> can be \<open>null\<close> or \<open>undefined\<close> at run time: it is an
  \<open>option\<close>. The test \<open>duration instanceof Duration\<close> holds of every value of the
  record type.
\<close>

definition add :: "rounding \<Rightarrow> Duration \<Rightarrow> Duration option \<Rightarrow> error + Duration" where
  "add rd this duration =
     bind_result (Check_verifyNotNullOrUndefined duration)
       (\<lambda>d. bind_result (Check_verify True)
         (\<lambda>_. bind_result (toMilliseconds d)
           (\<lambda>m. Inr (new_Duration (num_add rd (milliseconds this) m)
                                   (forever this \<or> forever d)))))"

definition multiply :: "rounding \<Rightarrow> Duration \<Rightarrow> number \<Rightarrow> error + Duration" where
  "multiply rd this times' =
     bind_result (Check_verifyPositive times')
       (\<lambda>_. Inr (new_Duration (num_mul rd (milliseconds this) times') (forever this)))"

subsection \<open>Factories\<close>

definition fromMilliseconds :: "number \<Rightarrow> error + Duration" where
  "fromMilliseconds ms =
     bind_result (Check_verifyNotNegative ms) (\<lambda>_. Inr (new_Duration ms False))"

definition fromSeconds :: "rounding \<Rightarrow> number \<Rightarrow> error + Duration" where
  "fromSeconds rd seconds =
     bind_result (Check_verifyNotNegative seconds)
       (\<lambda>_. Inr (new_Duration (num_mul rd seconds (Fin 1000)) False))"

definition fromMinutes :: "rounding \<Rightarrow> number \<Rightarrow> error + Duration" where
  "fromMinutes rd minutes =
     bind_result (Check_verifyNotNegative minutes)
       (\<lambda>_. fromSeconds rd (num_mul rd minutes (Fin 60)))"

definition fromHours :: "rounding \<Rightarrow> number \<Rightarrow> error + Duration" where
  "fromHours rd hours =
     bind_result (Check_verifyNotNegative hours)
       (\<lambda>_. fromMinutes rd (num_mul rd hours (Fin 60)))"

definition fromDays :: "rounding \<Rightarrow> number \<Rightarrow> error + Duration" where
  "fromDays rd days =
     bind_result (Check_verifyNotNegative days)
       (\<lambda>_. fromHours rd (num_mul rd days (Fin 24)))"

text \<open>The static method \<open>forever()\<close>; the field of the record has the plain name.\<close>

definition forever_Duration :: Duration where
  "forever_Duration = new_Duration MAX_VALUE True"

subsection \<open>A random duration between two\<close>

definition randInt :: "rounding \<Rightarrow> number \<Rightarrow> random_source \<Rightarrow> number \<times> random_source" where
  "randInt rd mx s = (case Math_random s of (r, s') \<Rightarrow> (Math_floor (num_mul rd r mx), s'))"

text \<open>
  \<open>between\<close> returns its result and the random source as it leaves it. The bounds
  \<open>left\<close> and \<open>right\<close> are computed by \<open>bound_of\<close>, the expression
  \<open>d.isForever() ? Number.MAX_VALUE : d.toMilliseconds()\<close>.
\<close>

definition bound_of :: "Duration \<Rightarrow> error + number" where
  "bound_of d = (if isForever d then Inr MAX_VALUE else toMilliseconds d)"

definition between ::
  "rounding \<Rightarrow> Duration option \<Rightarrow> Duration option \<Rightarrow> random_source
     \<Rightarrow> (error + Duration) \<times> random_source"
where
  "between rd a b s =
     (case Check_verifyNotNullOrUndefined a of Inl e \<Rightarrow> (Inl e, s) | Inr a' \<Rightarrow>
     (case Check_verifyNotNullOrUndefined b of Inl e \<Rightarrow> (Inl e, s) | Inr b' \<Rightarrow>
     (case Check_verify True of Inl e \<Rightarrow> (Inl e, s) | Inr _ \<Rightarrow>
     (case Check_verify True of Inl e \<Rightarrow> (Inl e, s) | Inr _ \<Rightarrow>
      if isForever a' \<and> isForever b' then (Inr forever_Duration, s)
      else
       (case bound_of a' of Inl e \<Rightarrow> (Inl e, s) | Inr left \<Rightarrow>
       (case bound_of b' of Inl e \<Rightarrow> (Inl e, s) | Inr right \<Rightarrow>
        if num_lt left right then
          (case randInt rd (num_sub rd right left) s of
             (k, s') \<Rightarrow> (fromMilliseconds (num_add rd k left), s'))
        else if num_lt right left then
          (case randInt rd (num_sub rd left right) s of
             (k, s') \<Rightarrow> (fromMilliseconds (num_add rd k right), s'))
        else (Inr a', s)))))))"

section \<open>Properties of durations\<close>

text \<open>What the spec calls a finite magnitude and a non-negative one.\<close>

fun is_finite :: "number \<Rightarrow> bool" where
  "is_finite (Fin a) = True"
| "is_finite x = False"

fun nonnegative :: "number \<Rightarrow> bool" where
  "nonnegative (Fin a) = (0 \<le> a)"
| "nonnegative PosInf = True"
| "nonnegative x = False"

text \<open>
  The invariant of the spec's data model: a forever duration stores positive infinity, any
  other duration a finite magnitude that is not negative.
\<close>

definition invariant :: "Duration \<Rightarrow> bool" where
  "invariant d =
     (if forever d then milliseconds d = PosInf
      else is_finite (milliseconds d) \<and> nonnegative (milliseconds d))"

text \<open>
  What the constructor and the guards of the factories give for any numeric argument: a
  forever duration stores positive infinity, and no other magnitude compares below zero.
\<close>

definition never_negative :: "Duration \<Rightarrow> bool" where
  "never_negative d =
     (if forever d then milliseconds d = PosInf else \<not> num_lt (milliseconds d) (Fin 0))"

text \<open>
  A rounding keeps the sign when it takes no real that is not negative to a number below
  zero. Both roundings do.
\<close>

definition keeps_sign :: "rounding \<Rightarrow> bool" where
  "keeps_sign rd = (\<forall>y. 0 \<le> y \<longrightarrow> nonnegative (rd y))"

text \<open>
  The durations a client can obtain from the code, which computes in \<open>binary64\<close>: the
  constructor is private, so every duration comes from a factory, from \<open>add\<close> or
  \<open>multiply\<close> on durations obtained before, or from \<open>between\<close> in some state of the
  random source. The numeric arguments and the random values are not restricted.
\<close>

inductive reachable :: "Duration \<Rightarrow> bool" where
  by_fromMilliseconds: "fromMilliseconds x = Inr d \<Longrightarrow> reachable d"
| by_fromSeconds: "fromSeconds binary64 x = Inr d \<Longrightarrow> reachable d"
| by_fromMinutes: "fromMinutes binary64 x = Inr d \<Longrightarrow> reachable d"
| by_fromHours: "fromHours binary64 x = Inr d \<Longrightarrow> reachable d"
| by_fromDays: "fromDays binary64 x = Inr d \<Longrightarrow> reachable d"
| by_forever: "reachable forever_Duration"
| by_add: "reachable a \<Longrightarrow> reachable b \<Longrightarrow> add binary64 a (Some b) = Inr d \<Longrightarrow> reachable d"
| by_multiply: "reachable a \<Longrightarrow> multiply binary64 a t = Inr d \<Longrightarrow> reachable d"
| by_between: "reachable a \<Longrightarrow> reachable b
           \<Longrightarrow> between binary64 (Some a) (Some b) s = (Inr d, s') \<Longrightarrow> reachable d"

text \<open>Whether a call returns a value rather than raising an error.\<close>

definition returns :: "error + 'a \<Rightarrow> bool" where
  "returns r = (case r of Inl e \<Rightarrow> False | Inr v \<Rightarrow> True)"

section \<open>Rounding to binary64\<close>

subsection \<open>The exponent\<close>

lemma exponent_bounds_ge1:
  assumes "1 \<le> x"
  shows "2 powi (exponent x) \<le> x" "x < 2 powi (exponent x + 1)"
proof -
  define n where "n = \<lfloor>x\<rfloor>"
  have n: "1 \<le> n" "of_int n \<le> x" "x < of_int n + 1"
    using assms by (simp_all add: n_def le_floor_iff)
  then have b: "2 ^ nat (bitlen n - 1) \<le> n" "n < 2 ^ nat (bitlen n)"
    using bitlen_bounds [of n] by simp_all
  have bl: "1 \<le> bitlen n" using n(1) bitlen_eq_zero_iff [of n] bitlen_nonneg [of n] by linarith
  have e: "exponent x = bitlen n - 1" using assms by (simp add: exponent_def n_def)
  have "2 powi (bitlen n - 1) = (2::real) ^ nat (bitlen n - 1)"
    using bl by (simp add: power_int_def)
  also have "\<dots> = of_int (2 ^ nat (bitlen n - 1))" by simp
  also have "\<dots> \<le> of_int n" using b(1) by (simp only: of_int_le_iff)
  finally show "2 powi (exponent x) \<le> x" using n(2) e by simp
  have "n + 1 \<le> 2 ^ nat (bitlen n)" using b(2) by simp
  then have "of_int (n + 1) \<le> (of_int (2 ^ nat (bitlen n)) :: real)" by (simp only: of_int_le_iff)
  then have "x < 2 ^ nat (bitlen n)" using n(3) by simp
  also have "(2::real) ^ nat (bitlen n) = 2 powi (bitlen n)" using bl by (simp add: power_int_def)
  finally show "x < 2 powi (exponent x + 1)" using e by simp
qed

lemma exponent_bounds_lt1:
  assumes "0 < x" "x < 1"
  shows "2 powi (exponent x) \<le> x" "x < 2 powi (exponent x + 1)"
proof -
  define c where "c = \<lceil>1 / x\<rceil> - 1"
  have y: "1 < 1 / x" using assms by simp
  have c: "1 \<le> c" "of_int c < 1 / x" "1 / x \<le> of_int c + 1"
    using y by (simp_all add: c_def less_ceiling_iff) linarith+
  then have b: "2 ^ nat (bitlen c - 1) \<le> c" "c < 2 ^ nat (bitlen c)"
    using bitlen_bounds [of c] by simp_all
  have bl: "1 \<le> bitlen c" using c(1) bitlen_eq_zero_iff [of c] bitlen_nonneg [of c] by linarith
  have e: "exponent x = - bitlen c" using assms by (simp add: exponent_def c_def)
  have p1: "2 powi (- bitlen c) = 1 / (2::real) ^ nat (bitlen c)"
    using bl by (simp add: power_int_def field_simps)
  have p2: "2 powi (- bitlen c + 1) = 1 / (2::real) ^ nat (bitlen c - 1)"
    using bl by (simp add: power_int_def field_simps)
  have "c + 1 \<le> 2 ^ nat (bitlen c)" using b(2) by simp
  then have "of_int (c + 1) \<le> (of_int (2 ^ nat (bitlen c)) :: real)" by (simp only: of_int_le_iff)
  then have "1 / x \<le> 2 ^ nat (bitlen c)" using c(3) by simp
  then have "1 / 2 ^ nat (bitlen c) \<le> x" using assms(1) by (simp add: field_simps)
  then show "2 powi (exponent x) \<le> x" using e p1 by simp
  have "(of_int (2 ^ nat (bitlen c - 1)) :: real) \<le> of_int c" using b(1) by (simp only: of_int_le_iff)
  then have "(2::real) ^ nat (bitlen c - 1) \<le> of_int c" by simp
  then have "2 ^ nat (bitlen c - 1) < 1 / x" using c(2) by linarith
  then have "x < 1 / 2 ^ nat (bitlen c - 1)" using assms(1) by (simp add: field_simps)
  then show "x < 2 powi (exponent x + 1)" using e p2 by simp
qed

lemma exponent_bounds:
  assumes "0 < x"
  shows "2 powi (exponent x) \<le> x" "x < 2 powi (exponent x + 1)"
  using assms exponent_bounds_ge1 [of x] exponent_bounds_lt1 [of x] by (cases "1 \<le> x"; simp)+

lemma exponent_unique:
  assumes "0 < x" "2 powi e \<le> x" "x < 2 powi (e + 1)"
  shows "exponent x = e"
proof (rule ccontr)
  assume ne: "exponent x \<noteq> e"
  note b = exponent_bounds [OF assms(1)]
  show False
  proof (cases "exponent x < e")
    case True
    then have "(2::real) powi (exponent x + 1) \<le> 2 powi e"
      by (intro power_int_increasing) simp_all
    with b(2) assms(2) show False by linarith
  next
    case False
    with ne have "e + 1 \<le> exponent x" by simp
    then have "(2::real) powi (e + 1) \<le> 2 powi (exponent x)"
      by (intro power_int_increasing) simp_all
    with b(1) assms(3) show False by linarith
  qed
qed

lemma exponent_mono:
  assumes "0 < x" "x \<le> y"
  shows "exponent x \<le> exponent y"
proof (rule ccontr)
  assume "\<not> exponent x \<le> exponent y"
  then have "exponent y + 1 \<le> exponent x" by simp
  then have "(2::real) powi (exponent y + 1) \<le> 2 powi (exponent x)"
    by (intro power_int_increasing) simp_all
  with exponent_bounds(1) [OF assms(1)] exponent_bounds(2) [of y] assms show False by linarith
qed


subsection \<open>Rounding to an integer\<close>

lemma rhe_of_int: "round_half_even (of_int m) = m"
  by (simp add: round_half_even_def)


lemma rhe_lower: "q - 1 / 2 \<le> of_int (round_half_even q)"
  unfolding round_half_even_def Let_def by (auto; linarith)

lemma rhe_mono: "q \<le> q' \<Longrightarrow> round_half_even q \<le> round_half_even q'"
proof -
  assume le: "q \<le> q'"
  have fl: "\<lfloor>q\<rfloor> \<le> \<lfloor>q'\<rfloor>" using le by (rule floor_mono)
  show ?thesis
  proof (cases "\<lfloor>q\<rfloor> = \<lfloor>q'\<rfloor>")
    case True
    with le show ?thesis unfolding round_half_even_def Let_def by auto
  next
    case False
    with fl have "\<lfloor>q\<rfloor> + 1 \<le> \<lfloor>q'\<rfloor>" by simp
    moreover have "round_half_even q \<le> \<lfloor>q\<rfloor> + 1"
      unfolding round_half_even_def Let_def by auto
    moreover have "\<lfloor>q'\<rfloor> \<le> round_half_even q'"
      unfolding round_half_even_def Let_def by auto
    ultimately show ?thesis by linarith
  qed
qed

lemma rhe_le: "q \<le> of_int m \<Longrightarrow> round_half_even q \<le> m"
  using rhe_mono [of q "of_int m"] by (simp add: rhe_of_int)

lemma rhe_ge: "of_int m \<le> q \<Longrightarrow> m \<le> round_half_even q"
  using rhe_mono [of "of_int m" q] by (simp add: rhe_of_int)


subsection \<open>Binades\<close>

lemma ulp_pos: "0 < ulp x"
  by (simp add: ulp_def)

lemma pow_split: "(2::real) powi (e + 1) = 2 ^ 53 * 2 powi (e - 52)"
  "(2::real) powi e = 2 ^ 52 * 2 powi (e - 52)"
  using power_int_add [of "2::real" "e - 52" 53] power_int_add [of "2::real" "e - 52" 52]
  by (simp_all add: mult.commute add.commute)

lemma binade_ge: "- 1022 \<le> binade x"
  by (simp add: binade_def)

lemma binade_upper: "0 < x \<Longrightarrow> x < 2 powi (binade x + 1)"
proof -
  assume x: "0 < x"
  have "(2::real) powi (exponent x + 1) \<le> 2 powi (binade x + 1)"
    by (intro power_int_increasing) (simp_all add: binade_def)
  with exponent_bounds(2) [OF x] show ?thesis by linarith
qed

lemma binade_lower: "0 < x \<Longrightarrow> - 1022 < binade x \<Longrightarrow> 2 powi (binade x) \<le> x"
  using exponent_bounds(1) [of x] by (auto simp: binade_def max_def split: if_splits)

lemma binade_mono: "0 < x \<Longrightarrow> x \<le> y \<Longrightarrow> binade x \<le> binade y"
  using exponent_mono [of x y] by (simp add: binade_def max_def)

lemma binade_eqI:
  assumes "0 < x" "- 1022 \<le> e" "x < 2 powi (e + 1)" "- 1022 < e \<longrightarrow> 2 powi e \<le> x"
  shows "binade x = e"
proof (cases "2 powi e \<le> x")
  case True
  with assms have "exponent x = e" by (intro exponent_unique)
  with assms(2) show ?thesis by (simp add: binade_def)
next
  case False
  with assms have e: "e = - 1022" by auto
  have "exponent x < - 1022"
  proof (rule ccontr)
    assume "\<not> exponent x < - 1022"
    then have "(2::real) powi (- 1022) \<le> 2 powi (exponent x)"
      by (intro power_int_increasing) simp_all
    with exponent_bounds(1) [OF assms(1)] False e show False by simp
  qed
  with e show ?thesis by (simp add: binade_def)
qed

lemma quotient_upper: "0 < x \<Longrightarrow> x / ulp x < 2 ^ 53"
  using binade_upper [of x] pow_split(1) [of "binade x"] ulp_pos [of x]
  by (simp add: ulp_def pos_divide_less_eq)

lemma quotient_lower: "0 < x \<Longrightarrow> - 1022 < binade x \<Longrightarrow> 2 ^ 52 \<le> x / ulp x"
  using binade_lower [of x] pow_split(2) [of "binade x"] ulp_pos [of x]
  by (simp add: ulp_def pos_le_divide_eq)

subsection \<open>The nearest double\<close>

lemma rhe_zero: "round_half_even 0 = 0"
  using rhe_of_int [of 0] by simp

lemma nearest_zero: "nearest 0 = 0"
  by (simp add: nearest_def rhe_zero)

lemma nearest_nonneg: "0 \<le> x \<Longrightarrow> 0 \<le> nearest x"
proof -
  assume "0 \<le> x"
  then have "(of_int 0 :: real) \<le> x / ulp x" using ulp_pos [of x] by simp
  then have "0 \<le> round_half_even (x / ulp x)" by (rule rhe_ge)
  then show ?thesis using ulp_pos [of x] by (simp add: nearest_def)
qed

lemma nearest_top: "0 < x \<Longrightarrow> nearest x \<le> 2 powi (binade x + 1)"
proof -
  assume x: "0 < x"
  have "x / ulp x \<le> of_int (2 ^ 53)" using quotient_upper [OF x] by simp
  then have "round_half_even (x / ulp x) \<le> 2 ^ 53" by (rule rhe_le)
  then have "(of_int (round_half_even (x / ulp x)) :: real) \<le> of_int (2 ^ 53)"
    by (simp only: of_int_le_iff)
  then have "of_int (round_half_even (x / ulp x)) * ulp x \<le> 2 ^ 53 * ulp x"
    using ulp_pos [of x] by (simp add: mult_le_cancel_right)
  then show ?thesis by (simp add: nearest_def pow_split(1) ulp_def)
qed

lemma nearest_bot: "0 < x \<Longrightarrow> - 1022 < binade x \<Longrightarrow> 2 powi (binade x) \<le> nearest x"
proof -
  assume x: "0 < x" and b: "- 1022 < binade x"
  have "of_int (2 ^ 52) \<le> x / ulp x" using quotient_lower [OF x b] by simp
  then have "2 ^ 52 \<le> round_half_even (x / ulp x)" by (rule rhe_ge)
  then have "(of_int (2 ^ 52) :: real) \<le> of_int (round_half_even (x / ulp x))"
    by (simp only: of_int_le_iff)
  then have "2 ^ 52 * ulp x \<le> of_int (round_half_even (x / ulp x)) * ulp x"
    using ulp_pos [of x] by (simp add: mult_le_cancel_right)
  then show ?thesis by (simp add: nearest_def pow_split(2) [of "binade x"] ulp_def)
qed

lemma nearest_mono:
  assumes "0 \<le> x" "x \<le> y"
  shows "nearest x \<le> nearest y"
proof (cases "x = 0")
  case True
  with assms nearest_nonneg [of y] show ?thesis by (simp add: nearest_zero)
next
  case False
  with assms have x: "0 < x" and y: "0 < y" by simp_all
  have le: "binade x \<le> binade y" using x assms(2) by (rule binade_mono)
  show ?thesis
  proof (cases "binade x = binade y")
    case True
    then have u: "ulp x = ulp y" by (simp add: ulp_def)
    have "x / ulp y \<le> y / ulp y" using assms(2) ulp_pos [of y] by (simp add: divide_right_mono)
    then have "round_half_even (x / ulp y) \<le> round_half_even (y / ulp y)" by (rule rhe_mono)
    then have "(of_int (round_half_even (x / ulp y)) :: real) \<le> of_int (round_half_even (y / ulp y))"
      by (simp only: of_int_le_iff)
    then show ?thesis using ulp_pos [of y] by (simp add: nearest_def u mult_le_cancel_right)
  next
    case False
    with le have lt: "binade x + 1 \<le> binade y" by simp
    then have "(2::real) powi (binade x + 1) \<le> 2 powi (binade y)"
      by (intro power_int_increasing) simp_all
    moreover have "- 1022 < binade y" using lt binade_ge [of x] by linarith
    ultimately show ?thesis using nearest_top [OF x] nearest_bot [OF y] by linarith
  qed
qed

lemma nearest_grid:
  assumes "0 < m" "m < 2 ^ 53" "- 1022 \<le> e" "- 1022 < e \<longrightarrow> 2 ^ 52 \<le> m"
  shows "nearest (of_int m * 2 powi (e - 52)) = of_int m * 2 powi (e - 52)"
proof -
  define z :: real where "z = of_int m * 2 powi (e - 52)"
  have u: "0 < (2::real) powi (e - 52)" by simp
  have z: "0 < z" using assms(1) u by (simp add: z_def)
  have "(of_int m :: real) < of_int (2 ^ 53)" using assms(2) by (simp only: of_int_less_iff)
  then have up: "z < 2 powi (e + 1)"
    using u by (simp add: z_def pow_split(1) [of e])
  have lo: "2 powi e \<le> z" if "- 1022 < e"
  proof -
    from that assms(4) have "(of_int (2 ^ 52) :: real) \<le> of_int m" by (simp only: of_int_le_iff)
    then show ?thesis using u by (simp add: z_def pow_split(2) [of e])
  qed
  have "binade z = e" using z assms(3) up lo by (intro binade_eqI) auto
  then have "ulp z = 2 powi (e - 52)" by (simp add: ulp_def)
  then have "z / ulp z = of_int m" by (simp add: z_def)
  then have "nearest z = of_int m * 2 powi (e - 52)"
    using \<open>ulp z = 2 powi (e - 52)\<close> by (simp add: nearest_def rhe_of_int)
  then show ?thesis by (simp add: z_def)
qed


lemma nearest_fixI:
  assumes "x / ulp x = of_int M"
  shows "nearest x = x"
proof -
  have "nearest x = (x / ulp x) * ulp x" by (simp add: nearest_def assms rhe_of_int)
  then show ?thesis using ulp_pos [of x] by simp
qed

lemma exponent_ge_0: "1 \<le> x \<Longrightarrow> 0 \<le> exponent x"
proof (rule ccontr)
  assume x: "1 \<le> x" and "\<not> 0 \<le> exponent x"
  then have "exponent x + 1 \<le> 0" by simp
  then have "(2::real) powi (exponent x + 1) \<le> 2 powi 0"
    by (intro power_int_increasing) simp_all
  with exponent_bounds(2) [of x] x show False by simp
qed

lemma binade_ge_1: "1 \<le> x \<Longrightarrow> binade x = exponent x \<and> 0 \<le> binade x"
  using exponent_ge_0 [of x] by (simp add: binade_def)

lemma nearest_int:
  assumes "1 \<le> k" "k < 2 ^ 53"
  shows "nearest (of_int k) = of_int k"
proof -
  define x :: real where "x = of_int k"
  have x: "1 \<le> x" using assms(1) by (simp add: x_def)
  define e where "e = binade x"
  have e: "e = exponent x" "0 \<le> e" using binade_ge_1 [OF x] by (simp_all add: e_def)
  have "e \<le> 52"
  proof (rule ccontr)
    assume "\<not> e \<le> 52"
    then have "(2::real) powi 53 \<le> 2 powi e" by (intro power_int_increasing) simp_all
    with exponent_bounds(1) [of x] x e(1) have "2 ^ 53 \<le> x" by simp
    then have "(of_int (2 ^ 53) :: real) \<le> of_int k" by (simp add: x_def)
    then have "2 ^ 53 \<le> k" by (simp only: of_int_le_iff)
    with assms(2) show False by simp
  qed
  have "x / ulp x = x * 2 powi (52 - e)"
    using power_int_minus [of "2::real" "e - 52"] by (simp add: ulp_def e_def field_simps)
  also have "2 powi (52 - e) = (2::real) ^ nat (52 - e)"
    using \<open>e \<le> 52\<close> by (simp add: power_int_def)
  also have "x * 2 ^ nat (52 - e) = of_int (k * 2 ^ nat (52 - e))" by (simp add: x_def)
  finally show ?thesis unfolding x_def by (rule nearest_fixI)
qed



subsection \<open>Doubles\<close>

lemma is_double_iff: "is_double x \<longleftrightarrow> nearest x = x \<and> \<bar>x\<bar> < 2 ^ 1024"
  by (auto simp: is_double_def binary64_def Let_def)



lemma is_double_of_int: "0 \<le> k \<Longrightarrow> k < 2 ^ 53 \<Longrightarrow> is_double (of_int k)"
proof -
  assume k: "0 \<le> k" "k < 2 ^ 53"
  have n: "nearest (of_int k) = of_int k"
    using k nearest_int [of k] by (cases "k = 0") (simp_all add: nearest_zero)
  have "(of_int k :: real) < of_int (2 ^ 53)" using k(2) by (simp only: of_int_less_iff)
  then have "\<bar>of_int k :: real\<bar> < 2 ^ 1024" using k(1) by simp
  with n show ?thesis by (simp add: is_double_iff)
qed

lemma is_double_numeral: "(numeral n :: int) < 2 ^ 53 \<Longrightarrow> is_double (numeral n)"
  using is_double_of_int [of "numeral n"] by simp


lemma binary64_numeral: "(numeral n :: int) < 2 ^ 53 \<Longrightarrow> binary64 (numeral n) = Fin (numeral n)"
  using is_double_numeral [of n] by (simp add: is_double_def)

lemma binary64_zero: "binary64 0 = Fin 0"
  by (simp add: binary64_def nearest_zero)




lemma binary64_overflow:
  assumes "2 ^ 1024 \<le> x"
  shows "binary64 x = PosInf"
proof -
  have "nearest (of_int (2 ^ 52) * 2 powi (1024 - 52)) = of_int (2 ^ 52) * 2 powi (1024 - 52)"
    by (intro nearest_grid) simp_all
  moreover have "of_int (2 ^ 52) * 2 powi (1024 - 52) = (2::real) ^ 1024"
    using power_add [of "2::real" 52 972] by simp
  ultimately have "nearest (2 ^ 1024) = 2 ^ 1024" by simp
  with nearest_mono [of "2 ^ 1024" x] assms have "2 ^ 1024 \<le> nearest x" by simp
  then show ?thesis by (simp add: binary64_def Let_def)
qed


lemma keeps_sign_binary64: "keeps_sign binary64"
  unfolding keeps_sign_def
proof (intro allI impI)
  fix y :: real
  assume "0 \<le> y"
  then have "0 \<le> nearest y" by (rule nearest_nonneg)
  then show "nonnegative (binary64 y)" by (simp add: binary64_def Let_def)
qed

section \<open>Conversions of a forever duration\<close>

lemma forever_Duration_eq: "forever_Duration = \<lparr>milliseconds = PosInf, forever = True\<rparr>"
  by (simp add: forever_Duration_def new_Duration_def)

lemma to_forever:
  assumes "forever d"
  shows "toMilliseconds d = Inl InvalidOperation" "toSeconds rd d = Inl InvalidOperation"
    "toMinutes rd d = Inl InvalidOperation" "toHours rd d = Inl InvalidOperation"
    "toDays rd d = Inl InvalidOperation"
  using assms
  by (simp_all add: toMilliseconds_def toSeconds_def toMinutes_def toHours_def toDays_def
      bind_result_def Check_verify_def)

lemma to_finite:
  assumes "\<not> forever d"
  shows "toMilliseconds d = Inr (milliseconds d)"
    "toSeconds rd d = Inr (num_div rd (milliseconds d) (Fin 1000))"
    "toMinutes rd d = Inr (num_div rd (num_div rd (milliseconds d) (Fin 1000)) (Fin 60))"
    "toHours rd d =
       Inr (num_div rd (num_div rd (num_div rd (milliseconds d) (Fin 1000)) (Fin 60)) (Fin 60))"
    "toDays rd d =
       Inr (num_div rd (num_div rd (num_div rd (num_div rd (milliseconds d) (Fin 1000)) (Fin 60))
              (Fin 60)) (Fin 24))"
  using assms
  by (simp_all add: toMilliseconds_def toSeconds_def toMinutes_def toHours_def toDays_def
      bind_result_def Check_verify_def)

section \<open>Signs\<close>

lemma keeps_signD: "keeps_sign rd \<Longrightarrow> 0 \<le> y \<Longrightarrow> nonnegative (rd y)"
  by (simp add: keeps_sign_def)

lemma nonnegative_not_lt: "nonnegative x \<Longrightarrow> \<not> num_lt x (Fin 0)"
  by (cases x) auto

lemma nonnegative_mul:
  "keeps_sign rd \<Longrightarrow> nonnegative x \<Longrightarrow> 0 < c \<Longrightarrow> nonnegative (num_mul rd x (Fin c))"
  by (cases x) (auto simp: signed_inf_def keeps_signD)

lemma not_neg_mul_const:
  "keeps_sign rd \<Longrightarrow> \<not> num_lt x (Fin 0) \<Longrightarrow> 0 < c \<Longrightarrow> \<not> num_lt (num_mul rd x (Fin c)) (Fin 0)"
  by (cases x) (auto simp: signed_inf_def keeps_signD nonnegative_not_lt)

lemma not_neg_add:
  "keeps_sign rd \<Longrightarrow> \<not> num_lt x (Fin 0) \<Longrightarrow> \<not> num_lt y (Fin 0)
   \<Longrightarrow> \<not> num_lt (num_add rd x y) (Fin 0)"
  by (cases x; cases y) (auto simp: keeps_signD nonnegative_not_lt)

lemma not_neg_mul:
  "keeps_sign rd \<Longrightarrow> \<not> num_lt x (Fin 0) \<Longrightarrow> num_lt (Fin 0) t
   \<Longrightarrow> \<not> num_lt (num_mul rd x t) (Fin 0)"
  by (cases x; cases t) (auto simp: signed_inf_def sgn_if keeps_signD nonnegative_not_lt)

lemma PosInf_mul_pos: "num_lt (Fin 0) t \<Longrightarrow> num_mul rd PosInf t = PosInf"
  by (cases t) (auto simp: signed_inf_def)

section \<open>Exact arithmetic\<close>



section \<open>What each operation returns\<close>

lemma new_Duration_False: "new_Duration m False = \<lparr>milliseconds = m, forever = False\<rparr>"
  by (simp add: new_Duration_def)

lemma fromMilliseconds_Inr:
  "fromMilliseconds x = Inr d \<longleftrightarrow> \<not> num_lt x (Fin 0) \<and> d = new_Duration x False"
  by (auto simp: fromMilliseconds_def bind_result_def Check_verifyNotNegative_def)

lemma fromSeconds_Inr:
  "fromSeconds rd x = Inr d \<longleftrightarrow>
     \<not> num_lt x (Fin 0) \<and> d = new_Duration (num_mul rd x (Fin 1000)) False"
  by (auto simp: fromSeconds_def bind_result_def Check_verifyNotNegative_def)

lemma fromMinutes_Inr:
  "fromMinutes rd x = Inr d \<longleftrightarrow>
     \<not> num_lt x (Fin 0) \<and> fromSeconds rd (num_mul rd x (Fin 60)) = Inr d"
  by (auto simp: fromMinutes_def bind_result_def Check_verifyNotNegative_def)

lemma fromHours_Inr:
  "fromHours rd x = Inr d \<longleftrightarrow>
     \<not> num_lt x (Fin 0) \<and> fromMinutes rd (num_mul rd x (Fin 60)) = Inr d"
  by (auto simp: fromHours_def bind_result_def Check_verifyNotNegative_def)

lemma fromDays_Inr:
  "fromDays rd x = Inr d \<longleftrightarrow>
     \<not> num_lt x (Fin 0) \<and> fromHours rd (num_mul rd x (Fin 24)) = Inr d"
  by (auto simp: fromDays_def bind_result_def Check_verifyNotNegative_def)

lemma factory_negative:
  assumes "num_lt x (Fin 0)"
  shows "fromMilliseconds x = Inl InvalidArgument" "fromSeconds rd x = Inl InvalidArgument"
    "fromMinutes rd x = Inl InvalidArgument" "fromHours rd x = Inl InvalidArgument"
    "fromDays rd x = Inl InvalidArgument"
  using assms
  by (simp_all add: fromMilliseconds_def fromSeconds_def fromMinutes_def fromHours_def
      fromDays_def bind_result_def Check_verifyNotNegative_def)

lemma fromMilliseconds_nonnegative:
  "nonnegative x \<Longrightarrow> fromMilliseconds x = Inr (new_Duration x False)"
  by (simp add: fromMilliseconds_Inr nonnegative_not_lt)

lemma fromSeconds_nonnegative:
  "nonnegative x \<Longrightarrow> fromSeconds rd x = Inr (new_Duration (num_mul rd x (Fin 1000)) False)"
  by (simp add: fromSeconds_Inr nonnegative_not_lt)

lemma fromMinutes_nonnegative:
  "keeps_sign rd \<Longrightarrow> nonnegative x \<Longrightarrow>
   fromMinutes rd x = Inr (new_Duration (num_mul rd (num_mul rd x (Fin 60)) (Fin 1000)) False)"
  by (simp add: fromMinutes_Inr fromSeconds_nonnegative nonnegative_mul nonnegative_not_lt)

lemma fromHours_nonnegative:
  "keeps_sign rd \<Longrightarrow> nonnegative x \<Longrightarrow>
   fromHours rd x =
     Inr (new_Duration
           (num_mul rd (num_mul rd (num_mul rd x (Fin 60)) (Fin 60)) (Fin 1000)) False)"
  by (simp add: fromHours_Inr fromMinutes_nonnegative nonnegative_mul nonnegative_not_lt)

lemma fromDays_nonnegative:
  "keeps_sign rd \<Longrightarrow> nonnegative x \<Longrightarrow>
   fromDays rd x =
     Inr (new_Duration
           (num_mul rd (num_mul rd (num_mul rd (num_mul rd x (Fin 24)) (Fin 60)) (Fin 60))
              (Fin 1000))
           False)"
  by (simp add: fromDays_Inr fromHours_nonnegative nonnegative_mul nonnegative_not_lt)

lemma add_Inr:
  "add rd a (Some b) = Inr d \<longleftrightarrow>
     \<not> forever b \<and>
     d = new_Duration (num_add rd (milliseconds a) (milliseconds b)) (forever a)"
  by (auto simp: add_def toMilliseconds_def bind_result_def Check_verify_def
      Check_verifyNotNullOrUndefined_def)

lemma add_forever_argument:
  "forever b \<Longrightarrow> add rd a (Some b) = Inl InvalidOperation"
  by (simp add: add_def toMilliseconds_def bind_result_def Check_verify_def
      Check_verifyNotNullOrUndefined_def)

lemma multiply_Inr:
  "multiply rd a t = Inr d \<longleftrightarrow>
     num_lt (Fin 0) t \<and> d = new_Duration (num_mul rd (milliseconds a) t) (forever a)"
  by (auto simp: multiply_def bind_result_def Check_verifyPositive_def)

lemma multiply_Inl:
  "multiply rd a t = Inl e \<longleftrightarrow> \<not> num_lt (Fin 0) t \<and> e = InvalidArgument"
  by (auto simp: multiply_def bind_result_def Check_verifyPositive_def)

section \<open>The bounds and the three branches of between\<close>

lemma bound_of_cases:
  "bound_of d = (if forever d then Inr MAX_VALUE else Inr (milliseconds d))"
  by (simp add: bound_of_def isForever_def toMilliseconds_def bind_result_def Check_verify_def)

lemma between_forever_forever:
  "forever a \<Longrightarrow> forever b \<Longrightarrow> between rd (Some a) (Some b) s = (Inr forever_Duration, s)"
  by (simp add: between_def Check_verifyNotNullOrUndefined_def Check_verify_def isForever_def)



lemma between_eq:
  assumes "\<not> (forever a \<and> forever b)" "bound_of a = Inr l" "bound_of b = Inr l"
  shows "between rd (Some a) (Some b) s = (Inr a, s)"
proof -
  have "\<not> num_lt l l" by (cases l) auto
  with assms show ?thesis
    by (auto simp: between_def Check_verifyNotNullOrUndefined_def Check_verify_def isForever_def)
qed

lemma between_same_bound:
  assumes "\<not> (forever a \<and> forever b)" "bound_of a = bound_of b"
  shows "between rd (Some a) (Some b) s = (Inr a, s)"
proof -
  obtain l where "bound_of a = Inr l"
    by (cases "forever a") (simp_all add: bound_of_cases)
  with assms show ?thesis by (intro between_eq [of a b l]) simp_all
qed

lemma between_Inr:
  assumes "between rd (Some a) (Some b) s = (Inr d, s')"
  shows "d = forever_Duration \<or> d = a \<or> (\<exists>x. fromMilliseconds x = Inr d)"
  using assms
  by (auto simp: between_def Check_verifyNotNullOrUndefined_def Check_verify_def
      split: if_splits sum.splits prod.splits)

section \<open>The sign of the reachable durations\<close>

lemma never_negative_new:
  "\<not> num_lt x (Fin 0) \<Longrightarrow> never_negative (new_Duration x fv)"
  by (simp add: never_negative_def new_Duration_def)

lemma never_negative_forever: "never_negative forever_Duration"
  by (simp add: never_negative_def forever_Duration_eq)

lemma reachable_sign: "reachable d \<Longrightarrow> never_negative d"
proof (induction rule: reachable.induct)
  case (by_fromMilliseconds x d)
  then show ?case by (simp add: fromMilliseconds_Inr never_negative_new)
next
  case (by_fromSeconds x d)
  then show ?case
    by (simp add: fromSeconds_Inr never_negative_new not_neg_mul_const keeps_sign_binary64)
next
  case (by_fromMinutes x d)
  then show ?case
    by (simp add: fromMinutes_Inr fromSeconds_Inr never_negative_new not_neg_mul_const
        keeps_sign_binary64)
next
  case (by_fromHours x d)
  then show ?case
    by (simp add: fromHours_Inr fromMinutes_Inr fromSeconds_Inr never_negative_new
        not_neg_mul_const keeps_sign_binary64)
next
  case (by_fromDays x d)
  then show ?case
    by (simp add: fromDays_Inr fromHours_Inr fromMinutes_Inr fromSeconds_Inr
        never_negative_new not_neg_mul_const keeps_sign_binary64)
next
  case by_forever
  show ?case by (rule never_negative_forever)
next
  case (by_add a b d)
  then show ?case
    by (auto simp: add_Inr never_negative_def new_Duration_def not_neg_add keeps_sign_binary64
        split: if_splits)
next
  case (by_multiply a t d)
  then show ?case
    by (auto simp: multiply_Inr never_negative_def new_Duration_def not_neg_mul
        keeps_sign_binary64 split: if_splits)
next
  case (by_between a b s d s')
  from between_Inr [OF by_between.hyps(3)] show ?case
    using by_between.IH
    by (auto simp: never_negative_forever fromMilliseconds_Inr never_negative_new)
qed

lemma reachable_fromMilliseconds:
  "0 \<le> m \<Longrightarrow> reachable \<lparr>milliseconds = Fin m, forever = False\<rparr>"
  by (rule by_fromMilliseconds [of "Fin m"])
    (simp add: fromMilliseconds_Inr new_Duration_False)

lemma add_finite_argument:
  assumes "reachable x" "\<not> forever y" "is_finite (milliseconds y)"
  shows "add rd x (Some y) =
    Inr \<lparr>milliseconds = num_add rd (milliseconds x) (milliseconds y),
         forever = forever x \<or> forever y\<rparr>"
proof -
  from assms(1) have "never_negative x" by (rule reachable_sign)
  with assms(2,3) show ?thesis
    by (cases "milliseconds y")
      (auto simp: add_Inr new_Duration_def never_negative_def split: if_splits)
qed

section \<open>Factories\<close>



text \<open>
  Claim C5. For every negative input each of the five factories raises
  \<open>InvalidArgument\<close>, and for every non-negative input none of them raises.
\<close>

theorem factories_reject_negative:
  "(num_lt x (Fin 0) \<longrightarrow>
      fromMilliseconds x = Inl InvalidArgument \<and>
      fromSeconds binary64 x = Inl InvalidArgument \<and>
      fromMinutes binary64 x = Inl InvalidArgument \<and>
      fromHours binary64 x = Inl InvalidArgument \<and>
      fromDays binary64 x = Inl InvalidArgument) \<and>
   (nonnegative x \<longrightarrow>
      returns (fromMilliseconds x) \<and> returns (fromSeconds binary64 x) \<and>
      returns (fromMinutes binary64 x) \<and> returns (fromHours binary64 x) \<and>
      returns (fromDays binary64 x))"
proof (intro conjI impI)
  note ks = keeps_sign_binary64
  assume "nonnegative x"
  then show "returns (fromMilliseconds x)" "returns (fromSeconds binary64 x)"
    "returns (fromMinutes binary64 x)" "returns (fromHours binary64 x)"
    "returns (fromDays binary64 x)"
    by (simp_all add: fromMilliseconds_nonnegative fromSeconds_nonnegative
        fromMinutes_nonnegative [OF ks] fromHours_nonnegative [OF ks]
        fromDays_nonnegative [OF ks] returns_def)
qed (simp_all add: factory_negative)

theorem factories_reject_negative_witness:
  "num_lt (Fin (- 1)) (Fin 0) \<and> fromMilliseconds (Fin (- 1)) = Inl InvalidArgument \<and>
   fromDays binary64 (Fin (- 1)) = Inl InvalidArgument \<and>
   nonnegative (Fin 2) \<and> returns (fromMilliseconds (Fin 2)) \<and>
   returns (fromDays binary64 (Fin 2))"
  using factories_reject_negative [of "Fin (- 1)"] factories_reject_negative [of "Fin 2"]
  by simp

section \<open>Conversions\<close>

text \<open>
  Claim C6. On every duration whose forever flag is set, and so on \<open>forever()\<close>, each of
  the five conversions raises \<open>InvalidOperation\<close>, while \<open>isForever()\<close> returns true;
  on every other duration the conversions return a value.
\<close>

theorem conversions_forever:
  "(forever d \<longrightarrow>
      toMilliseconds d = Inl InvalidOperation \<and>
      toSeconds binary64 d = Inl InvalidOperation \<and>
      toMinutes binary64 d = Inl InvalidOperation \<and>
      toHours binary64 d = Inl InvalidOperation \<and>
      toDays binary64 d = Inl InvalidOperation \<and> isForever d) \<and>
   (\<not> forever d \<longrightarrow>
      returns (toMilliseconds d) \<and> returns (toSeconds binary64 d) \<and>
      returns (toMinutes binary64 d) \<and> returns (toHours binary64 d) \<and>
      returns (toDays binary64 d) \<and> \<not> isForever d) \<and>
   forever forever_Duration"
  by (simp add: to_forever to_finite isForever_def returns_def forever_Duration_eq)

theorem conversions_forever_witness:
  "forever forever_Duration \<and> toMilliseconds forever_Duration = Inl InvalidOperation \<and>
   toDays binary64 forever_Duration = Inl InvalidOperation \<and> isForever forever_Duration \<and>
   \<not> forever \<lparr>milliseconds = Fin 10, forever = False\<rparr> \<and>
   returns (toSeconds binary64 \<lparr>milliseconds = Fin 10, forever = False\<rparr>)"
  using conversions_forever [of forever_Duration]
    conversions_forever [of "\<lparr>milliseconds = Fin 10, forever = False\<rparr>"]
  by simp

section \<open>Multiplication\<close>

text \<open>
  Claim C7. For every duration \<open>d\<close> and number \<open>t\<close>, \<open>d.multiply(t)\<close> raises
  \<open>InvalidArgument\<close> if and only if \<open>t\<close> is not strictly positive, so \<open>multiply(0)\<close>
  and \<open>multiply(-1)\<close> fail; otherwise it returns a duration whose magnitude is the
  magnitude of \<open>d\<close> times \<open>t\<close> and whose forever flag is that of \<open>d\<close>.
\<close>

theorem multiply_spec:
  assumes "reachable d"
  shows "(multiply binary64 d t = Inl InvalidArgument \<longleftrightarrow> \<not> num_lt (Fin 0) t) \<and>
    multiply binary64 d (Fin 0) = Inl InvalidArgument \<and>
    multiply binary64 d (Fin (- 1)) = Inl InvalidArgument \<and>
    (num_lt (Fin 0) t \<longrightarrow>
       multiply binary64 d t =
         Inr \<lparr>milliseconds = num_mul binary64 (milliseconds d) t, forever = forever d\<rparr>)"
proof -
  from assms have nn: "never_negative d" by (rule reachable_sign)
  have "multiply binary64 d t =
      Inr \<lparr>milliseconds = num_mul binary64 (milliseconds d) t, forever = forever d\<rparr>"
    if "num_lt (Fin 0) t"
    using that nn
    by (auto simp: multiply_Inr new_Duration_def never_negative_def PosInf_mul_pos
        split: if_splits)
  then show ?thesis by (simp add: multiply_Inl)
qed

theorem multiply_spec_witness:
  "reachable \<lparr>milliseconds = Fin 2000, forever = False\<rparr> \<and>
   num_lt (Fin 0) (Fin 3) \<and>
   multiply binary64 \<lparr>milliseconds = Fin 2000, forever = False\<rparr> (Fin 3) =
     Inr \<lparr>milliseconds = Fin 6000, forever = False\<rparr> \<and>
   multiply binary64 \<lparr>milliseconds = Fin 2000, forever = False\<rparr> (Fin 0) =
     Inl InvalidArgument"
proof -
  have r: "reachable \<lparr>milliseconds = Fin 2000, forever = False\<rparr>"
    by (rule by_fromSeconds [of "Fin 2"])
      (simp add: fromSeconds_Inr new_Duration_False binary64_numeral)
  from multiply_spec [OF r, of "Fin 3"] r show ?thesis by (simp add: binary64_numeral)
qed

section \<open>A random duration between two\<close>







text \<open>
  Claim C8. If the bounds of \<open>a\<close> and \<open>b\<close> (the magnitude, or \<open>Number.MAX_VALUE\<close> for
  a forever duration) are equal and \<open>a\<close> and \<open>b\<close> are not both forever, \<open>between(a, b)\<close>
  returns \<open>a\<close> and leaves the random source as it is; in particular \<open>between(a, a)\<close>
  returns a duration equal to \<open>a\<close>.
\<close>

theorem between_equal_returns_first:
  "(\<not> (forever a \<and> forever b) \<and> bound_of a = bound_of b \<longrightarrow>
      between binary64 (Some a) (Some b) s = (Inr a, s)) \<and>
   (reachable a \<longrightarrow> between binary64 (Some a) (Some a) s = (Inr a, s))"
proof (intro conjI impI)
  assume "\<not> (forever a \<and> forever b) \<and> bound_of a = bound_of b"
  then show "between binary64 (Some a) (Some b) s = (Inr a, s)"
    by (simp add: between_same_bound)
next
  assume "reachable a"
  then have nn: "never_negative a" by (rule reachable_sign)
  show "between binary64 (Some a) (Some a) s = (Inr a, s)"
  proof (cases "forever a")
    case True
    with nn have "a = forever_Duration"
      by (simp add: never_negative_def forever_Duration_eq)
    with True show ?thesis by (simp add: between_forever_forever)
  next
    case False
    then show ?thesis by (simp add: between_same_bound)
  qed
qed

theorem between_equal_returns_first_witness:
  "\<not> (forever forever_Duration \<and> forever \<lparr>milliseconds = MAX_VALUE, forever = False\<rparr>) \<and>
   bound_of forever_Duration = bound_of \<lparr>milliseconds = MAX_VALUE, forever = False\<rparr> \<and>
   between binary64 (Some forever_Duration)
           (Some \<lparr>milliseconds = MAX_VALUE, forever = False\<rparr>)
           \<lparr>draws = always (3 / 4), used = 0\<rparr> =
     (Inr forever_Duration, \<lparr>draws = always (3 / 4), used = 0\<rparr>) \<and>
   reachable \<lparr>milliseconds = Fin 10, forever = False\<rparr> \<and>
   between binary64 (Some \<lparr>milliseconds = Fin 10, forever = False\<rparr>)
           (Some \<lparr>milliseconds = Fin 10, forever = False\<rparr>)
           \<lparr>draws = always (3 / 4), used = 0\<rparr> =
     (Inr \<lparr>milliseconds = Fin 10, forever = False\<rparr>, \<lparr>draws = always (3 / 4), used = 0\<rparr>)"
proof -
  have a: "reachable \<lparr>milliseconds = Fin 10, forever = False\<rparr>"
    by (rule reachable_fromMilliseconds) simp
  have b: "bound_of forever_Duration = bound_of \<lparr>milliseconds = MAX_VALUE, forever = False\<rparr>"
    by (simp add: bound_of_cases forever_Duration_eq)
  from between_equal_returns_first
    [of "\<lparr>milliseconds = Fin 10, forever = False\<rparr>" "\<lparr>milliseconds = Fin 10, forever = False\<rparr>"
        "\<lparr>draws = always (3 / 4), used = 0\<rparr>"]
    between_equal_returns_first
    [of forever_Duration "\<lparr>milliseconds = MAX_VALUE, forever = False\<rparr>"
        "\<lparr>draws = always (3 / 4), used = 0\<rparr>"] a b
  show ?thesis by simp
qed

text \<open>
  Claim C9. If both arguments are forever, \<open>between(a, b)\<close> returns \<open>forever()\<close>, for
  which \<open>isForever()\<close> is true, and the random source is left as it is.
\<close>

theorem between_both_forever:
  "forever a \<and> forever b \<longrightarrow>
     between binary64 (Some a) (Some b) s = (Inr forever_Duration, s) \<and>
     isForever forever_Duration"
  by (simp add: between_forever_forever isForever_def forever_Duration_eq)

theorem between_both_forever_witness:
  "forever forever_Duration \<and>
   between binary64 (Some forever_Duration) (Some forever_Duration)
     \<lparr>draws = always (3 / 4), used = 0\<rparr> =
     (Inr \<lparr>milliseconds = PosInf, forever = True\<rparr>, \<lparr>draws = always (3 / 4), used = 0\<rparr>)"
  using between_both_forever
    [of forever_Duration forever_Duration "\<lparr>draws = always (3 / 4), used = 0\<rparr>"]
  by (simp add: forever_Duration_eq)

section \<open>Addition\<close>

text \<open>
  Claim C10. \<open>add\<close> treats its two operands differently: for every duration \<open>d\<close> that is
  not forever, \<open>forever().add(d)\<close> returns a forever duration, whereas
  \<open>d.add(forever())\<close> raises, since \<open>add\<close> reads the argument through
  \<open>toMilliseconds()\<close>, which raises on a forever duration.
\<close>

theorem add_asymmetric:
  "\<not> forever d \<longrightarrow>
     add binary64 forever_Duration (Some d) = Inr forever_Duration \<and>
     isForever forever_Duration \<and>
     add binary64 d (Some forever_Duration) = Inl InvalidOperation \<and>
     toMilliseconds forever_Duration = Inl InvalidOperation"
  by (simp add: add_Inr add_forever_argument to_forever isForever_def forever_Duration_eq
      new_Duration_def)

theorem add_asymmetric_witness:
  "\<not> forever \<lparr>milliseconds = Fin 1, forever = False\<rparr> \<and>
   add binary64 forever_Duration (Some \<lparr>milliseconds = Fin 1, forever = False\<rparr>) =
     Inr \<lparr>milliseconds = PosInf, forever = True\<rparr> \<and>
   add binary64 \<lparr>milliseconds = Fin 1, forever = False\<rparr> (Some forever_Duration) =
     Inl InvalidOperation"
  using add_asymmetric [of "\<lparr>milliseconds = Fin 1, forever = False\<rparr>"]
  by (simp add: forever_Duration_eq)

text \<open>
  Claim C1. \<open>x.add(y)\<close> is to return a duration with the sum of the magnitudes and the
  disjunction of the forever flags, also when \<open>y\<close> is forever. The lemma
  \<open>add_finite_argument\<close> gives that for an argument that is not forever. With a forever
  argument the method raises instead: the duration \<open>fromMilliseconds(1)\<close> added to
  \<open>forever()\<close> is \<open>InvalidOperation\<close>, although the expression
  \<open>this.forever || duration.forever\<close> of the method provides for a forever argument.
\<close>

theorem add_forever_operand_raises:
  "fromMilliseconds (Fin 1) = Inr \<lparr>milliseconds = Fin 1, forever = False\<rparr> \<and>
   forever forever_Duration \<and>
   add binary64 \<lparr>milliseconds = Fin 1, forever = False\<rparr> (Some forever_Duration) =
     Inl InvalidOperation"
  by (simp add: fromMilliseconds_Inr new_Duration_False add_forever_argument forever_Duration_eq)

section \<open>The invariant\<close>

text \<open>
  Claim C3, as the spec states it: every reachable duration that is not forever has a
  finite, non-negative magnitude. It fails in three ways. \<open>fromMilliseconds(Infinity)\<close>
  passes the guard of the factory, since the argument is not negative, and stores it in a
  duration that is not forever. \<open>fromSeconds(Number.MAX_VALUE)\<close> has a finite argument
  and stores the product, which overflows to infinity. \<open>fromMilliseconds(0)\<close> multiplied
  by \<open>Infinity\<close> stores NaN.
\<close>

theorem invariant_counterexample:
  "fromMilliseconds PosInf = Inr \<lparr>milliseconds = PosInf, forever = False\<rparr> \<and>
   is_finite MAX_VALUE \<and>
   fromSeconds binary64 MAX_VALUE = Inr \<lparr>milliseconds = PosInf, forever = False\<rparr> \<and>
   reachable \<lparr>milliseconds = PosInf, forever = False\<rparr> \<and>
   \<not> invariant \<lparr>milliseconds = PosInf, forever = False\<rparr> \<and>
   fromMilliseconds (Fin 0) = Inr \<lparr>milliseconds = Fin 0, forever = False\<rparr> \<and>
   multiply binary64 \<lparr>milliseconds = Fin 0, forever = False\<rparr> PosInf =
     Inr \<lparr>milliseconds = NaN, forever = False\<rparr> \<and>
   reachable \<lparr>milliseconds = NaN, forever = False\<rparr> \<and>
   \<not> invariant \<lparr>milliseconds = NaN, forever = False\<rparr>"
proof -
  have f: "fromMilliseconds PosInf = Inr \<lparr>milliseconds = PosInf, forever = False\<rparr>"
    by (simp add: fromMilliseconds_Inr new_Duration_False)
  then have r: "reachable \<lparr>milliseconds = PosInf, forever = False\<rparr>"
    by (rule by_fromMilliseconds)
  have "(2::real) ^ 1024 \<le> (2 ^ 1024 - 2 ^ 971) * 1000" by simp
  then have "binary64 ((2 ^ 1024 - 2 ^ 971) * 1000) = PosInf" by (rule binary64_overflow)
  then have o: "fromSeconds binary64 MAX_VALUE = Inr \<lparr>milliseconds = PosInf, forever = False\<rparr>"
    by (simp add: fromSeconds_Inr new_Duration_False MAX_VALUE_def)
  have z: "fromMilliseconds (Fin 0) = Inr \<lparr>milliseconds = Fin 0, forever = False\<rparr>"
    by (simp add: fromMilliseconds_Inr new_Duration_False)
  then have rz: "reachable \<lparr>milliseconds = Fin 0, forever = False\<rparr>"
    by (rule by_fromMilliseconds)
  have m: "multiply binary64 \<lparr>milliseconds = Fin 0, forever = False\<rparr> PosInf =
      Inr \<lparr>milliseconds = NaN, forever = False\<rparr>"
    by (simp add: multiply_Inr new_Duration_False signed_inf_def)
  have rn: "reachable \<lparr>milliseconds = NaN, forever = False\<rparr>"
    using rz m by (rule by_multiply)
  from f r o z m rn show ?thesis by (simp add: invariant_def MAX_VALUE_def)
qed

text \<open>
  Claim C3, amended. Every duration reachable through the factories and operations stores
  positive infinity when its forever flag is set, and otherwise a magnitude that does not
  compare below zero.
\<close>

theorem reachable_never_negative:
  "reachable d \<Longrightarrow> never_negative d"
  by (rule reachable_sign)

theorem reachable_never_negative_witness:
  "reachable \<lparr>milliseconds = Fin 6000, forever = False\<rparr> \<and>
   never_negative \<lparr>milliseconds = Fin 6000, forever = False\<rparr>"
proof -
  have a: "reachable \<lparr>milliseconds = Fin 2000, forever = False\<rparr>"
    by (rule by_fromSeconds [of "Fin 2"])
      (simp add: fromSeconds_Inr new_Duration_False binary64_numeral)
  have r: "reachable \<lparr>milliseconds = Fin 6000, forever = False\<rparr>"
    by (rule by_multiply [OF a, of "Fin 3"])
      (simp add: multiply_Inr new_Duration_False binary64_numeral)
  from reachable_never_negative [OF r] r show ?thesis by simp
qed

end
